theory Spec2Isabelle
  imports Complex_Main "HOL-Library.AList"
begin

section \<open>QuasiPycies: diversity indices from clustered reads and pileups\<close>

text \<open>
  A shallow embedding of \<^verbatim>\<open>src/quasispycies.py\<close>.

  Conventions of the embedding:
  \<^item> a text file is the list of lines that \<^verbatim>\<open>readlines()\<close> returns, each line with its
    terminator; characters are 8-bit, \<^verbatim>\<open>upper()\<close> and \<^verbatim>\<open>\d\<close> are the ASCII ones;
  \<^item> a Python exception is a value \<open>Inl e\<close> of a sum type;
  \<^item> a \<^verbatim>\<open>dict\<close> is an association list in insertion order: storing under an existing key
    replaces the value in place, storing under a new key appends (\<open>AList.update\<close>);
  \<^item> Python floats are read as real numbers: \<^verbatim>\<open>/\<close>, \<^verbatim>\<open>**\<close>, \<^verbatim>\<open>math.log\<close> and
    \<^verbatim>\<open>round\<close> are the exact operations, so the binary rounding error of each operation
    and values beyond the range of a double are not represented. Where the exact value
    lies at a decimal tie, or within a rounding error of one, \<^verbatim>\<open>round\<close> on the double can
    return the neighbouring decimal; general statements about a rounded result therefore
    bound it by one unit of its last decimal place instead of naming the digit;
  \<^item> the product \<^verbatim>\<open>sum(list_n_bases) * cutoff\<close> of \<^verbatim>\<open>polymorphic_sites\<close> decides a strict
    comparison, so its rounding matters: the product is the parameter \<open>py_mul\<close>;
  \<^item> the builtins \<^verbatim>\<open>float(str)\<close> and \<^verbatim>\<open>str(float)\<close> are parameters of the functions that
    call them;
  \<^item> line 300 of the source indents with a tab where its neighbours use spaces; the
    statement is read at the indentation of the loop body it belongs to.
\<close>

datatype py_error = AttributeError | ValueError | IndexError | ZeroDivisionError | TemplateEscape

subsection \<open>Strings\<close>

definition newline :: char where
  "newline = CHR 0x0A"

definition tab :: char where
  "tab = CHR 0x09"

definition upper_char :: "char \<Rightarrow> char" where
  "upper_char c =
     (if 97 \<le> (of_char c :: nat) \<and> (of_char c :: nat) \<le> 122
      then char_of ((of_char c :: nat) - 32) else c)"

definition py_upper :: "string \<Rightarrow> string" where
  "py_upper s = map upper_char s"

text \<open>\<^verbatim>\<open>s.count(c)\<close> for a one-character argument.\<close>

definition py_count :: "string \<Rightarrow> char \<Rightarrow> nat" where
  "py_count s c = count_list s c"

text \<open>\<^verbatim>\<open>line.split(sep)\<close> for a one-character separator: always at least one field.\<close>

fun py_split :: "char \<Rightarrow> string \<Rightarrow> string list" where
  "py_split sep [] = [[]]"
| "py_split sep (c # cs) =
     (if c = sep then [] # py_split sep cs
      else (case py_split sep cs of
              [] \<Rightarrow> [[c]]
            | w # ws \<Rightarrow> (c # w) # ws))"

text \<open>\<^verbatim>\<open>readlines()\<close> on the text of a file: lines keep their terminator.\<close>

fun readlines :: "string \<Rightarrow> string list" where
  "readlines [] = []"
| "readlines (c # cs) =
     (if c = newline then [c] # readlines cs
      else (case readlines cs of
              [] \<Rightarrow> [[c]]
            | l # ls \<Rightarrow> (c # l) # ls))"

subsection \<open>The regular expressions of the module\<close>

text \<open>
  The patterns used by the module are sequences of single-character atoms, some under
  a greedy \<^verbatim>\<open>+\<close>. \<open>match_here\<close> is the backtracking matcher anchored at the head of the
  string: it returns the rest of the string after the match that Python's engine finds
  first (the longest repetition is tried first).
\<close>

datatype atom = Lit char | Dot | OneOf "char list" | Digit

fun atom_ok :: "atom \<Rightarrow> char \<Rightarrow> bool" where
  "atom_ok (Lit a) c = (c = a)"
| "atom_ok Dot c = (c \<noteq> newline)"
| "atom_ok (OneOf cs) c = (c \<in> set cs)"
| "atom_ok Digit c = (c \<in> set ''0123456789'')"

datatype item = One atom | Plus atom

fun match_here :: "item list \<Rightarrow> string \<Rightarrow> string option" where
  "match_here [] s = Some s"
| "match_here (One a # r) [] = None"
| "match_here (One a # r) (c # cs) = (if atom_ok a c then match_here r cs else None)"
| "match_here (Plus a # r) [] = None"
| "match_here (Plus a # r) (c # cs) =
     (if atom_ok a c
      then (case match_here (Plus a # r) cs of
              Some rest \<Rightarrow> Some rest
            | None \<Rightarrow> match_here r cs)
      else None)"

text \<open>\<^verbatim>\<open>re.search\<close>: the leftmost match, as (start index, matched text).\<close>

fun re_search_from :: "item list \<Rightarrow> nat \<Rightarrow> string \<Rightarrow> (nat \<times> string) option" where
  "re_search_from p i [] =
     (case match_here p [] of Some rest \<Rightarrow> Some (i, []) | None \<Rightarrow> None)"
| "re_search_from p i (c # cs) =
     (case match_here p (c # cs) of
        Some rest \<Rightarrow> Some (i, take (length (c # cs) - length rest) (c # cs))
      | None \<Rightarrow> re_search_from p (Suc i) cs)"

definition re_search :: "item list \<Rightarrow> string \<Rightarrow> (nat \<times> string) option" where
  "re_search p s = re_search_from p 0 s"

text \<open>
  \<^verbatim>\<open>re.sub\<close> for a pattern that cannot match the empty string: every non-overlapping
  match, left to right, is replaced by \<open>repl\<close> applied to the matched text.
\<close>

function re_sub :: "item list \<Rightarrow> (string \<Rightarrow> string) \<Rightarrow> string \<Rightarrow> string" where
  "re_sub p repl [] = []"
| "re_sub p repl (c # cs) =
     (case match_here p (c # cs) of
        None \<Rightarrow> c # re_sub p repl cs
      | Some rest \<Rightarrow>
          if length rest < length (c # cs)
          then repl (take (length (c # cs) - length rest) (c # cs)) @ re_sub p repl rest
          else c # re_sub p repl cs)"
  by pat_completeness auto
termination
  by (relation "measure (\<lambda>(p, repl, s). length s)") auto

text \<open>\<^verbatim>\<open>;size=(\d+)\<close>\<close>

definition size_re :: "item list" where
  "size_re = [One (Lit (CHR '';'')), One (Lit (CHR ''s'')), One (Lit (CHR ''i'')),
              One (Lit (CHR ''z'')), One (Lit (CHR ''e'')), One (Lit (CHR ''='')), Plus Digit]"

text \<open>\<^verbatim>\<open>(\d+.\d+)%\<close>\<close>

definition percentage_re :: "item list" where
  "percentage_re = [Plus Digit, One Dot, Plus Digit, One (Lit (CHR ''%''))]"

text \<open>\<^verbatim>\<open>\^.([ACTGNacgtn.,])\<close>\<close>

definition caret_re :: "item list" where
  "caret_re = [One (Lit (CHR ''^'')), One Dot, One (OneOf ''ACTGNacgtn.,'')]"

text \<open>\<^verbatim>\<open>[.,]\<close>\<close>

definition match_symbol_re :: "item list" where
  "match_symbol_re = [One (OneOf ''.,'')]"

text \<open>\<^verbatim>\<open>int(s)\<close> on a string of decimal digits.\<close>

definition digit_val :: "char \<Rightarrow> nat" where
  "digit_val c = (of_char c :: nat) - 48"

definition int_of_digits :: "string \<Rightarrow> nat" where
  "int_of_digits s = foldl (\<lambda>acc c. 10 * acc + digit_val c) 0 s"

subsection \<open>Class Pileup\<close>

record pileup =
  dict_pileup :: "(string \<times> string) list"
  polymorphic_sites_dict :: "(string \<times> string) list"

text \<open>
  The replacement argument of \<^verbatim>\<open>re.sub("[.,]", ref_base, ...)\<close> is a template. A reference
  base without a backslash stands for itself. One with a backslash would be expanded or
  rejected by Python's template compiler; that is not modelled, the load ends in
  \<open>TemplateEscape\<close>.
\<close>

definition sub_ref_base :: "string \<Rightarrow> string \<Rightarrow> py_error + string" where
  "sub_ref_base ref_base s =
     (if CHR 0x5C \<in> set ref_base then Inl TemplateEscape
      else Inr (re_sub match_symbol_re (\<lambda>m. ref_base) s))"

fun pileup_lines :: "int \<Rightarrow> nat \<Rightarrow> string list \<Rightarrow> (string \<times> string) list
    \<Rightarrow> py_error + (string \<times> string) list" where
  "pileup_lines min_reads_per_position n [] d = Inr d"
| "pileup_lines min_reads_per_position n (line # rest) d =
     (let line_elements = py_split tab line in
      if length line_elements < 6 then Inl IndexError
      else
        let line_number = line_elements ! 1;
            ref_base = line_elements ! 2;
            pos_bases_original = line_elements ! 4
        in
        if int n < min_reads_per_position then
          (let pos_bases_sub_1 = py_upper (re_sub caret_re (\<lambda>m. [last m]) pos_bases_original) in
           case sub_ref_base ref_base pos_bases_sub_1 of
             Inl e \<Rightarrow> Inl e
           | Inr s \<Rightarrow> pileup_lines min_reads_per_position (Suc n) rest
                        (AList.update line_number (py_upper s) d))
        else
          (case sub_ref_base ref_base pos_bases_original of
             Inl e \<Rightarrow> Inl e
           | Inr s \<Rightarrow> pileup_lines min_reads_per_position (Suc n) rest
                        (AList.update line_number (py_upper s) d)))"

definition Pileup_init :: "string list \<Rightarrow> int \<Rightarrow> py_error + pileup" where
  "Pileup_init pileup_file min_reads_per_position =
     (case pileup_lines min_reads_per_position 0 pileup_file [] of
        Inl e \<Rightarrow> Inl e
      | Inr d \<Rightarrow> Inr \<lparr>dict_pileup = d, polymorphic_sites_dict = []\<rparr>)"

text \<open>Python's \<^verbatim>\<open>round(x, ndigits)\<close> on the real value: to the nearest, ties to even.\<close>

definition round_half_even :: "real \<Rightarrow> int" where
  "round_half_even y =
     (let f = \<lfloor>y\<rfloor>; d = y - of_int f in
      if d < 1 / 2 then f
      else if 1 / 2 < d then f + 1
      else if even f then f else f + 1)"

definition py_round :: "real \<Rightarrow> nat \<Rightarrow> real" where
  "py_round x ndigits = of_int (round_half_even (x * 10 ^ ndigits)) / 10 ^ ndigits"

fun nuc_diversity_list :: "string list \<Rightarrow> py_error + real list" where
  "nuc_diversity_list [] = Inr []"
| "nuc_diversity_list (pos # rest) =
     (let A = py_count (py_upper pos) (CHR ''A'');
          T = py_count (py_upper pos) (CHR ''T'');
          C = py_count (py_upper pos) (CHR ''C'');
          G = py_count (py_upper pos) (CHR ''G'');
          reads = A + C + T + G
      in
      if (real (reads ^ 2) - real reads) / 2 = 0 then Inl ZeroDivisionError
      else
        (let Di = real ((A*C) + (A*G) + (A*T) + (C*G) + (C*T) + (G*T))
                  / ((real (reads ^ 2) - real reads) / 2) in
         case nuc_diversity_list rest of
           Inl e \<Rightarrow> Inl e
         | Inr ds \<Rightarrow> Inr (Di # ds)))"

definition nucleotide_diversity :: "pileup \<Rightarrow> py_error + real" where
  "nucleotide_diversity p =
     (case nuc_diversity_list (map snd (dict_pileup p)) of
        Inl e \<Rightarrow> Inl e
      | Inr ds \<Rightarrow>
          if length (dict_pileup p) = 0 then Inl ZeroDivisionError
          else Inr (py_round (sum_list ds / real (length (dict_pileup p))) 4))"

fun polymorphic_percentage :: "(nat \<Rightarrow> real \<Rightarrow> real) \<Rightarrow> real \<Rightarrow> (string \<times> string) list
    \<Rightarrow> nat \<times> (string \<times> string) list \<Rightarrow> nat \<times> (string \<times> string) list" where
  "polymorphic_percentage py_mul cutoff [] acc = acc"
| "polymorphic_percentage py_mul cutoff ((key, val) # rest) (number_polymorphic_sites, psd) =
     (let A = py_count (py_upper val) (CHR ''A'');
          T = py_count (py_upper val) (CHR ''T'');
          C = py_count (py_upper val) (CHR ''C'');
          G = py_count (py_upper val) (CHR ''G'');
          list_n_bases = sort [A, T, C, G]
      in
      if py_mul (sum_list list_n_bases) cutoff < real (list_n_bases ! 2)
      then polymorphic_percentage py_mul cutoff rest
             (number_polymorphic_sites + 1, AList.update key val psd)
      else polymorphic_percentage py_mul cutoff rest (number_polymorphic_sites, psd))"

fun polymorphic_number_reads :: "real \<Rightarrow> (string \<times> string) list
    \<Rightarrow> nat \<times> (string \<times> string) list \<Rightarrow> nat \<times> (string \<times> string) list" where
  "polymorphic_number_reads cutoff [] acc = acc"
| "polymorphic_number_reads cutoff ((key, val) # rest) (number_polymorphic_sites, psd) =
     (let A = py_count (py_upper val) (CHR ''A'');
          T = py_count (py_upper val) (CHR ''T'');
          C = py_count (py_upper val) (CHR ''C'');
          G = py_count (py_upper val) (CHR ''G'');
          list_n_bases = sort [A, T, C, G]
      in
      if cutoff < real (list_n_bases ! 2)
      then polymorphic_number_reads cutoff rest
             (number_polymorphic_sites + 1, AList.update key val psd)
      else polymorphic_number_reads cutoff rest (number_polymorphic_sites, psd))"

text \<open>
  \<^verbatim>\<open>polymorphic_sites\<close> returns the count; the object it leaves behind is the second
  component. \<open>py_mul n cutoff\<close> is the value of \<^verbatim>\<open>n * cutoff\<close> as Python computes it for the
  integer \<open>n\<close>.
\<close>

definition polymorphic_sites :: "(nat \<Rightarrow> real \<Rightarrow> real) \<Rightarrow> string \<Rightarrow> real \<Rightarrow> pileup
    \<Rightarrow> nat \<times> pileup" where
  "polymorphic_sites py_mul value_type cutoff p =
     (if value_type = ''percentage'' then
        (case polymorphic_percentage py_mul cutoff (dict_pileup p)
                (0, polymorphic_sites_dict p) of
           (n, psd) \<Rightarrow> (n, p\<lparr>polymorphic_sites_dict := psd\<rparr>))
      else if value_type = ''number_reads'' then
        (case polymorphic_number_reads cutoff (dict_pileup p) (0, polymorphic_sites_dict p) of
           (n, psd) \<Rightarrow> (n, p\<lparr>polymorphic_sites_dict := psd\<rparr>))
      else (0, p))"

subsection \<open>Class Clusters\<close>

text \<open>
  A value of \<^verbatim>\<open>dict_fasta\<close> is the list \<^verbatim>\<open>[sequence, percentage, n]\<close>, here a triple.
\<close>

record clusters =
  dict_fasta :: "(string \<times> (string \<times> real \<times> nat)) list"
  names :: "string list"
  sequences :: "string list"
  percentages :: "real list"
  number_reads :: "nat list"

fun clusters_lines :: "(string \<Rightarrow> real option) \<Rightarrow> string list \<Rightarrow> nat \<Rightarrow> string list
    \<Rightarrow> clusters \<Rightarrow> py_error + clusters" where
  "clusters_lines pyfloat fasta_file number [] c = Inr c"
| "clusters_lines pyfloat fasta_file number (line # rest) c =
     (if take 1 line = ''>'' then
        (case re_search size_re line of
           None \<Rightarrow> Inl AttributeError
         | Some (start, size_match) \<Rightarrow>
             (let n = int_of_digits (drop 6 size_match) in
              case re_search percentage_re line of
                None \<Rightarrow> Inl AttributeError
              | Some (pstart, percentage_match) \<Rightarrow>
                  (case pyfloat (butlast percentage_match) of
                     None \<Rightarrow> Inl ValueError
                   | Some percentage \<Rightarrow>
                       (let name = drop 1 (take start line) in
                        if Suc number < length fasta_file then
                          (let sequence = fasta_file ! Suc number in
                           clusters_lines pyfloat fasta_file (Suc number) rest
                             (c\<lparr>number_reads := number_reads c @ [n],
                                percentages := percentages c @ [percentage],
                                names := names c @ [name],
                                sequences := sequences c @ [sequence],
                                dict_fasta :=
                                  AList.update name (sequence, percentage, n) (dict_fasta c)\<rparr>))
                        else Inl IndexError))))
      else clusters_lines pyfloat fasta_file (Suc number) rest c)"

definition Clusters_init :: "(string \<Rightarrow> real option) \<Rightarrow> string list \<Rightarrow> py_error + clusters" where
  "Clusters_init pyfloat fasta_file =
     clusters_lines pyfloat fasta_file 0 fasta_file
       \<lparr>dict_fasta = [], names = [], sequences = [], percentages = [], number_reads = []\<rparr>"

text \<open>
  The second loop of \<^verbatim>\<open>shannon_entropy\<close>; \<open>nreads\<close> is the local \<^verbatim>\<open>number_reads\<close>, whose
  name the record field takes. \<^verbatim>\<open>v/number_reads\<close> divides by zero when the total is 0,
  and \<^verbatim>\<open>math.log\<close> rejects 0.
\<close>

fun entropy_loop :: "nat \<Rightarrow> nat list \<Rightarrow> real \<Rightarrow> py_error + real" where
  "entropy_loop nreads [] entropy = Inr entropy"
| "entropy_loop nreads (v # vs) entropy =
     (if nreads = 0 then Inl ZeroDivisionError
      else if real v / real nreads \<le> 0 then Inl ValueError
      else entropy_loop nreads vs
             (entropy + (real v / real nreads) * ln (real v / real nreads)))"

definition shannon_entropy :: "clusters \<Rightarrow> real \<Rightarrow> py_error + real" where
  "shannon_entropy c minimun_perc =
     (let selected = filter (\<lambda>(key, (s, perc, n)). minimun_perc \<le> perc) (dict_fasta c);
          list_sizes = map (\<lambda>(key, (s, perc, n)). n) selected;
          nreads = sum_list list_sizes
      in
      case entropy_loop nreads list_sizes 0 of
        Inl e \<Rightarrow> Inl e
      | Inr entropy \<Rightarrow>
          if real nreads \<le> 0 then Inl ValueError
          else if ln (real nreads) = 0 then Inl ZeroDivisionError
          else Inr (py_round (- (entropy / ln (real nreads))) 3))"

text \<open>The loop shared by the three Simpson functions.\<close>

fun simpson_loop :: "nat list \<Rightarrow> nat list \<Rightarrow> real \<Rightarrow> py_error + real" where
  "simpson_loop all_reads [] D = Inr D"
| "simpson_loop all_reads (element # rest) D =
     (if sum_list all_reads = 0 then Inl ZeroDivisionError
      else simpson_loop all_reads rest (D + (real element / real (sum_list all_reads)) ^ 2))"

definition simpsons_index :: "clusters \<Rightarrow> py_error + real" where
  "simpsons_index c =
     (case simpson_loop (number_reads c) (number_reads c) 0 of
        Inl e \<Rightarrow> Inl e
      | Inr D \<Rightarrow> Inr (py_round D 2))"

definition simpsons_index_of_diversity :: "clusters \<Rightarrow> py_error + real" where
  "simpsons_index_of_diversity c =
     (case simpson_loop (number_reads c) (number_reads c) 0 of
        Inl e \<Rightarrow> Inl e
      | Inr D \<Rightarrow> Inr (py_round (1 - D) 2))"


text \<open>
  The functions that write a file return the text written. \<open>pystr\<close> is \<^verbatim>\<open>str\<close> on a
  float.
\<close>

definition clusters_object_to_fasta :: "(real \<Rightarrow> string) \<Rightarrow> clusters \<Rightarrow> string" where
  "clusters_object_to_fasta pystr c =
     concat (map (\<lambda>(key, (sequence, percentage, n)).
                    ''>'' @ key @ ''_size='' @ pystr percentage @ ''_'' @ pystr percentage
                      @ ''%'' @ [newline] @ sequence)
                 (dict_fasta c))"

text \<open>The two \<^verbatim>\<open>print\<close> calls of the method go to the terminal and are left out.\<close>

definition filtering_clusters_by_percentage_to_fasta :: "clusters \<Rightarrow> real \<Rightarrow> string" where
  "filtering_clusters_by_percentage_to_fasta c minimun_perc =
     (let nreads = sum_list (map (\<lambda>(key, (s, perc, n)). n) (dict_fasta c)) in
      concat (map (\<lambda>(key, (s, perc, n)). s)
                  (filter (\<lambda>(key, (s, perc, n)). real nreads * minimun_perc \<le> real n)
                          (dict_fasta c))))"

subsection \<open>The module-level filter\<close>

definition py_isspace :: "char \<Rightarrow> bool" where
  "py_isspace c = ((of_char c :: nat) \<in> {9, 10, 11, 12, 13, 28, 29, 30, 31, 32})"

definition py_rstrip :: "string \<Rightarrow> string" where
  "py_rstrip s = rev (dropWhile py_isspace (rev s))"

fun total_reads_lines :: "string list \<Rightarrow> nat \<Rightarrow> py_error + nat" where
  "total_reads_lines [] nreads = Inr nreads"
| "total_reads_lines (line # rest) nreads =
     (case line of
        [] \<Rightarrow> Inl IndexError
      | c # cs \<Rightarrow>
          if c = CHR ''>'' then
            (case re_search size_re line of
               None \<Rightarrow> Inl AttributeError
             | Some (start, size_match) \<Rightarrow>
                 total_reads_lines rest (nreads + int_of_digits (drop 6 size_match)))
          else total_reads_lines rest nreads)"

fun filter_lines :: "(real \<Rightarrow> string) \<Rightarrow> string list \<Rightarrow> nat \<Rightarrow> real \<Rightarrow> nat \<Rightarrow> string list
    \<Rightarrow> py_error + string" where
  "filter_lines pystr fasta_in nreads minimun_perc number [] = Inr []"
| "filter_lines pystr fasta_in nreads minimun_perc number (line # rest) =
     (case line of
        [] \<Rightarrow> Inl IndexError
      | c # cs \<Rightarrow>
          if c = CHR ''>'' then
            (case re_search size_re line of
               None \<Rightarrow> Inl AttributeError
             | Some (start, size_match) \<Rightarrow>
                 (let n = int_of_digits (drop 6 size_match) in
                  if real nreads * minimun_perc \<le> real n then
                    (if nreads = 0 then Inl ZeroDivisionError
                     else if Suc number < length fasta_in then
                       (case filter_lines pystr fasta_in nreads minimun_perc
                               (Suc number) rest of
                          Inl e \<Rightarrow> Inl e
                        | Inr out \<Rightarrow>
                            Inr (py_rstrip line @ ''_''
                                 @ pystr (py_round ((real n / real nreads) * 100) 2)
                                 @ ''%'' @ [newline] @ fasta_in ! Suc number @ out))
                     else Inl IndexError)
                  else filter_lines pystr fasta_in nreads minimun_perc (Suc number) rest))
          else filter_lines pystr fasta_in nreads minimun_perc (Suc number) rest)"

definition filtering_fastaclusters_by_percentage ::
    "(real \<Rightarrow> string) \<Rightarrow> string list \<Rightarrow> real \<Rightarrow> py_error + string" where
  "filtering_fastaclusters_by_percentage pystr fasta_in minimun_perc =
     (case total_reads_lines fasta_in 0 of
        Inl e \<Rightarrow> Inl e
      | Inr nreads \<Rightarrow> filter_lines pystr fasta_in nreads minimun_perc 0 fasta_in)"

section \<open>Inputs of the scenarios\<close>

text \<open>The example of the module's docstring, as a file and as the loaded object.\<close>

definition two_clusters_file :: "string list" where
  "two_clusters_file =
     [''>ReadA;size=180_90.0%'' @ [newline], ''AAATTTCCCGGG'' @ [newline],
      ''>ReadB;size=20_10.0%'' @ [newline], ''TTTAAATTTGGG'' @ [newline]]"

definition two_clusters :: clusters where
  "two_clusters =
     \<lparr>dict_fasta = [(''ReadA'', (''AAATTTCCCGGG'' @ [newline], 90, 180)),
                    (''ReadB'', (''TTTAAATTTGGG'' @ [newline], 10, 20))],
      names = [''ReadA'', ''ReadB''],
      sequences = [''AAATTTCCCGGG'' @ [newline], ''TTTAAATTTGGG'' @ [newline]],
      percentages = [90, 10],
      number_reads = [180, 20]\<rparr>"

text \<open>\<^verbatim>\<open>float\<close> and \<^verbatim>\<open>str\<close> on the two percentages of the example.\<close>

definition example_float :: "string \<Rightarrow> real option" where
  "example_float s = (if s = ''90.0'' then Some 90 else if s = ''10.0'' then Some 10 else None)"

definition example_str :: "real \<Rightarrow> string" where
  "example_str x = (if x = 90 then ''90.0'' else ''10.0'')"

text \<open>
  One pileup line at position 1 with reference base T and two reads that both start
  there (\<^verbatim>\<open>^A\<close>: start of a read with mapping quality 32) and both match the reference.
\<close>

definition caret_line :: string where
  "caret_line = ''chr1'' @ [tab] @ ''1'' @ [tab] @ ''T'' @ [tab] @ ''2'' @ [tab]
                @ ''^A,^A.'' @ [tab] @ ''II'' @ [newline]"

subsection \<open>Further scenarios\<close>

text \<open>A collection with a single cluster, and one with seven clusters of one read each.\<close>

definition one_cluster :: clusters where
  "one_cluster =
     \<lparr>dict_fasta = [(''ReadA'', (''AAATTTCCCGGG'' @ [newline], 100, 180))],
      names = [''ReadA''],
      sequences = [''AAATTTCCCGGG'' @ [newline]],
      percentages = [100],
      number_reads = [180]\<rparr>"


text \<open>
  Pileup lines: eight reads at position 1 (four mismatches A, four matches of the
  reference T), and a single read at position 2.
\<close>

definition aaaa_line :: string where
  "aaaa_line = ''chr1'' @ [tab] @ ''1'' @ [tab] @ ''T'' @ [tab] @ ''8'' @ [tab]
                @ ''AAAA,,,,'' @ [tab] @ ''IIIIIIII'' @ [newline]"


text \<open>Eight reads at position 3, seven of them A and one matching the reference T.\<close>

definition minor_allele_line :: string where
  "minor_allele_line = ''chr1'' @ [tab] @ ''3'' @ [tab] @ ''T'' @ [tab] @ ''8'' @ [tab]
                @ ''AAAAAAA,'' @ [tab] @ ''IIIIIIII'' @ [newline]"


definition exact_product :: "nat \<Rightarrow> real \<Rightarrow> real" where
  "exact_product n cutoff = real n * cutoff"

section \<open>Notions of the specification\<close>

text \<open>
  The count of one nucleotide at a position, in either case of the letter; the total
  count \<open>n\<close> over A, C, G, T; and the statistic \<open>Di = (AC+AG+AT+CG+CT+GT) / (n(n-1)/2)\<close>.
\<close>

definition n_base :: "char \<Rightarrow> string \<Rightarrow> nat" where
  "n_base b v =
     length (filter (\<lambda>c. c = b \<or> (c, b) \<in> set [(CHR ''a'', CHR ''A''), (CHR ''c'', CHR ''C''),
                                               (CHR ''g'', CHR ''G''), (CHR ''t'', CHR ''T'')]) v)"

definition depth :: "string \<Rightarrow> nat" where
  "depth v = n_base (CHR ''A'') v + n_base (CHR ''C'') v + n_base (CHR ''G'') v + n_base (CHR ''T'') v"

definition Di :: "string \<Rightarrow> real" where
  "Di v =
     (let A = n_base (CHR ''A'') v; C = n_base (CHR ''C'') v;
          G = n_base (CHR ''G'') v; T = n_base (CHR ''T'') v
      in real (A*C + A*G + A*T + C*G + C*T + G*T)
         / (real (depth v) * (real (depth v) - 1) / 2))"

text \<open>The records at or above a percentage threshold, in the order of the collection.\<close>

definition restricted :: "clusters \<Rightarrow> real \<Rightarrow> (string \<times> (string \<times> real \<times> nat)) list" where
  "restricted c min_percentage = filter (\<lambda>(key, (s, perc, n)). min_percentage \<le> perc) (dict_fasta c)"

text \<open>Simpson's \<open>D\<close> before rounding: the sum of the squared proportions.\<close>

definition simpson_D :: "nat list \<Rightarrow> real" where
  "simpson_D rs = (\<Sum>r\<leftarrow>rs. (real r / real (sum_list rs)) ^ 2)"

text \<open>
  A result is a value within \<open>tol\<close> of \<open>v\<close>; it is a value with at most \<open>n\<close> decimal
  places; it is a value of at least \<open>v\<close>.
\<close>

definition approx :: "py_error + real \<Rightarrow> real \<Rightarrow> real \<Rightarrow> bool" where
  "approx r v tol = (case r of Inl e \<Rightarrow> False | Inr x \<Rightarrow> \<bar>x - v\<bar> \<le> tol)"



text \<open>
  The second-highest base count of a position, the nucleotides observed there, and the
  test of one \<^verbatim>\<open>polymorphic_sites\<close> call on a position.
\<close>

definition second_highest :: "string \<Rightarrow> nat" where
  "second_highest v =
     sort [n_base (CHR ''A'') v, n_base (CHR ''C'') v, n_base (CHR ''G'') v, n_base (CHR ''T'') v] ! 2"


definition qualifies :: "(nat \<Rightarrow> real \<Rightarrow> real) \<Rightarrow> string \<Rightarrow> real \<Rightarrow> string \<Rightarrow> bool" where
  "qualifies py_mul value_type cutoff v =
     (if value_type = ''percentage'' then py_mul (depth v) cutoff < real (second_highest v)
      else value_type = ''number_reads'' \<and> cutoff < real (second_highest v))"

text \<open>The positions of the collection that qualify under one call, a sequence of calls on
  one object, and the stores that a list of qualifying positions leads to.\<close>

definition qualifying :: "(nat \<Rightarrow> real \<Rightarrow> real) \<Rightarrow> string \<Rightarrow> real \<Rightarrow> pileup
    \<Rightarrow> (string \<times> string) list" where
  "qualifying py_mul value_type cutoff p =
     filter (\<lambda>kv. qualifies py_mul value_type cutoff (snd kv)) (dict_pileup p)"

fun run_calls :: "(nat \<Rightarrow> real \<Rightarrow> real) \<Rightarrow> pileup \<Rightarrow> (string \<times> real) list \<Rightarrow> pileup" where
  "run_calls py_mul p [] = p"
| "run_calls py_mul p ((value_type, cutoff) # calls) =
     run_calls py_mul (snd (polymorphic_sites py_mul value_type cutoff p)) calls"

fun store_all :: "(string \<times> string) list \<Rightarrow> (string \<times> string) list \<Rightarrow> (string \<times> string) list" where
  "store_all [] d = d"
| "store_all ((k, v) # rest) d = store_all rest (AList.update k v d)"

section \<open>Properties\<close>

lemmas string_eval = tab_def newline_def py_upper_def upper_char_def py_count_def

lemmas search_eval = re_search_def size_re_def percentage_re_def newline_def
  int_of_digits_def digit_val_def

subsection \<open>Export and reload of a cluster collection\<close>

lemma two_clusters_loaded:
  "pyfloat ''90.0'' = Some 90 \<Longrightarrow> pyfloat ''10.0'' = Some 10 \<Longrightarrow>
   Clusters_init pyfloat two_clusters_file = Inr two_clusters"
  by (simp add: Clusters_init_def two_clusters_file_def two_clusters_def search_eval Let_def)

text \<open>
  C1 (fails on the code). The docstring gives the header format \<^verbatim>\<open>>ReadA;size=180_90.0%\<close>.
  \<^verbatim>\<open>clusters_object_to_fasta\<close> writes \<^verbatim>\<open>_size=\<close> instead of \<^verbatim>\<open>;size=\<close> and puts the percentage
  where the read count belongs, so the loader finds no \<^verbatim>\<open>;size=<integer>\<close> in the exported
  header and stops with AttributeError on the first record: the docstring's own example
  does not survive export and reload.
\<close>

theorem export_not_reloadable:
  assumes "pyfloat ''90.0'' = Some 90" and "pyfloat ''10.0'' = Some 10"
    and "pystr 90 = ''90.0''" and "pystr 10 = ''10.0''"
  shows "Clusters_init pyfloat two_clusters_file = Inr two_clusters
       \<and> clusters_object_to_fasta pystr two_clusters =
           ''>ReadA_size=90.0_90.0%'' @ [newline] @ ''AAATTTCCCGGG'' @ [newline]
           @ ''>ReadB_size=10.0_10.0%'' @ [newline] @ ''TTTAAATTTGGG'' @ [newline]
       \<and> Clusters_init pyfloat (readlines (clusters_object_to_fasta pystr two_clusters))
           = Inl AttributeError"
proof -
  have loaded: "Clusters_init pyfloat two_clusters_file = Inr two_clusters"
    using assms(1,2) by (rule two_clusters_loaded)
  have written: "clusters_object_to_fasta pystr two_clusters =
           ''>ReadA_size=90.0_90.0%'' @ [newline] @ ''AAATTTCCCGGG'' @ [newline]
           @ ''>ReadB_size=10.0_10.0%'' @ [newline] @ ''TTTAAATTTGGG'' @ [newline]"
    using assms(3,4) by (simp add: clusters_object_to_fasta_def two_clusters_def)
  have reload: "Clusters_init pyfloat
          (readlines (''>ReadA_size=90.0_90.0%'' @ [newline] @ ''AAATTTCCCGGG'' @ [newline]
           @ ''>ReadB_size=10.0_10.0%'' @ [newline] @ ''TTTAAATTTGGG'' @ [newline]))
        = Inl AttributeError"
    by (simp add: Clusters_init_def search_eval)
  show ?thesis
  proof (intro conjI)
    show "Clusters_init pyfloat two_clusters_file = Inr two_clusters"
      by (rule loaded)
    show "clusters_object_to_fasta pystr two_clusters =
           ''>ReadA_size=90.0_90.0%'' @ [newline] @ ''AAATTTCCCGGG'' @ [newline]
           @ ''>ReadB_size=10.0_10.0%'' @ [newline] @ ''TTTAAATTTGGG'' @ [newline]"
      by (rule written)
    show "Clusters_init pyfloat (readlines (clusters_object_to_fasta pystr two_clusters))
           = Inl AttributeError"
      unfolding written by (rule reload)
  qed
qed

theorem export_not_reloadable_witness:
  "Clusters_init example_float two_clusters_file = Inr two_clusters
   \<and> clusters_object_to_fasta example_str two_clusters =
       ''>ReadA_size=90.0_90.0%'' @ [newline] @ ''AAATTTCCCGGG'' @ [newline]
       @ ''>ReadB_size=10.0_10.0%'' @ [newline] @ ''TTTAAATTTGGG'' @ [newline]
   \<and> Clusters_init example_float (readlines (clusters_object_to_fasta example_str two_clusters))
       = Inl AttributeError"
proof -
  have f90: "example_float ''90.0'' = Some 90" and f10: "example_float ''10.0'' = Some 10"
    by (simp_all add: example_float_def)
  have s90: "example_str 90 = ''90.0''" and s10: "example_str 10 = ''10.0''"
    by (simp_all add: example_str_def)
  show ?thesis
    by (rule export_not_reloadable [OF f90 f10 s90 s10])
qed

subsection \<open>Mapping-quality markup in a pileup line\<close>

text \<open>
  C3 (fails on the code). The docstring calls \<^verbatim>\<open>min_reads_per_position\<close> a minimum number
  of reads, but \<^verbatim>\<open>__init__\<close> compares it with the index of the line in the file, and only
  the lines below it lose their \<^verbatim>\<open>^<char>\<close> markup. With the default 0 no line does: the
  line \<open>caret_line\<close>, whose two reads both show T, is stored as \<^verbatim>\<open>^AT^AT\<close>, where the two
  mapping-quality characters count as two reads of A. Loaded with a threshold of 1 the
  same line is stored as \<^verbatim>\<open>TT\<close>.
\<close>

theorem caret_markup_kept_by_default:
  "Pileup_init [caret_line] 0
     = Inr \<lparr>dict_pileup = [(''1'', ''^AT^AT'')], polymorphic_sites_dict = []\<rparr>
   \<and> py_count (py_upper ''^AT^AT'') (CHR ''A'') = 2
   \<and> py_count (py_upper ''^AT^AT'') (CHR ''T'') = 2
   \<and> Pileup_init [caret_line] 1
     = Inr \<lparr>dict_pileup = [(''1'', ''TT'')], polymorphic_sites_dict = []\<rparr>"
  by (simp add: caret_line_def Pileup_init_def string_eval sub_ref_base_def
      match_symbol_re_def caret_re_def)

subsection \<open>The relative-abundance filter\<close>

text \<open>
  The module-level filter writes, for every cluster it keeps, the header with the
  percentage appended and the sequence line.
\<close>

lemma module_filter_keeps_headers:
  "filtering_fastaclusters_by_percentage pystr
     [''>ReadA;size=180'' @ [newline], ''AAATTTCCCGGG'' @ [newline],
      ''>ReadB;size=20'' @ [newline], ''TTTAAATTTGGG'' @ [newline]] 0
   = Inr (''>ReadA;size=180_'' @ pystr 90 @ ''%'' @ [newline] @ ''AAATTTCCCGGG'' @ [newline]
          @ ''>ReadB;size=20_'' @ pystr 10 @ ''%'' @ [newline] @ ''TTTAAATTTGGG'' @ [newline])"
  by (simp add: filtering_fastaclusters_by_percentage_def search_eval py_rstrip_def
      py_isspace_def py_round_def round_half_even_def)

text \<open>
  C8 (fails on the code). \<^verbatim>\<open>filtering_clusters_by_percentage_to_fasta\<close> selects the clusters
  with \<^verbatim>\<open>n >= number_reads * minimun_perc\<close> but writes only their sequence lines: the
  output for the docstring's example at 0.0 has neither names nor read counts nor
  percentages, and is not a file the loader reads. The module-level
  \<^verbatim>\<open>filtering_fastaclusters_by_percentage\<close> writes the header before each sequence.
\<close>

theorem method_filter_drops_headers:
  "filtering_clusters_by_percentage_to_fasta two_clusters 0
     = ''AAATTTCCCGGG'' @ [newline] @ ''TTTAAATTTGGG'' @ [newline]"
  by (simp add: filtering_clusters_by_percentage_to_fasta_def two_clusters_def)

subsection \<open>Counting and rounding\<close>

text \<open>
  The code counts a nucleotide with \<^verbatim>\<open>value.upper().count(...)\<close>; that is the number of
  occurrences of the letter in either case.
\<close>

lemma of_char_upper:
  "(of_char (upper_char c) :: nat) =
     (if 97 \<le> (of_char c :: nat) \<and> (of_char c :: nat) \<le> 122 then of_char c - 32 else of_char c)"
proof (cases "97 \<le> (of_char c :: nat) \<and> (of_char c :: nat) \<le> 122")
  case True
  then have "(of_char c :: nat) - 32 < 256" by linarith
  then have "((of_char c :: nat) - 32) mod 256 = of_char c - 32" by (rule mod_less)
  with True show ?thesis by (simp add: upper_char_def)
next
  case False
  then show ?thesis by (auto simp: upper_char_def)
qed

lemma upper_char_letters:
  "(upper_char c = CHR ''A'') = (c = CHR ''A'' \<or> c = CHR ''a'')"
  "(upper_char c = CHR ''C'') = (c = CHR ''C'' \<or> c = CHR ''c'')"
  "(upper_char c = CHR ''G'') = (c = CHR ''G'' \<or> c = CHR ''g'')"
  "(upper_char c = CHR ''T'') = (c = CHR ''T'' \<or> c = CHR ''t'')"
proof -
  have k: "(upper_char c = d) = ((of_char (upper_char c) :: nat) = of_char d)" for d
    by simp
  have e: "(c = d) = ((of_char c :: nat) = of_char d)" for d
    by simp
  show "(upper_char c = CHR ''A'') = (c = CHR ''A'' \<or> c = CHR ''a'')"
    unfolding k e of_char_upper by (simp; linarith)
  show "(upper_char c = CHR ''C'') = (c = CHR ''C'' \<or> c = CHR ''c'')"
    unfolding k e of_char_upper by (simp; linarith)
  show "(upper_char c = CHR ''G'') = (c = CHR ''G'' \<or> c = CHR ''g'')"
    unfolding k e of_char_upper by (simp; linarith)
  show "(upper_char c = CHR ''T'') = (c = CHR ''T'' \<or> c = CHR ''t'')"
    unfolding k e of_char_upper by (simp; linarith)
qed

lemma py_count_upper:
  "py_count (py_upper v) (CHR ''A'') = n_base (CHR ''A'') v"
  "py_count (py_upper v) (CHR ''C'') = n_base (CHR ''C'') v"
  "py_count (py_upper v) (CHR ''G'') = n_base (CHR ''G'') v"
  "py_count (py_upper v) (CHR ''T'') = n_base (CHR ''T'') v"
  by (induction v; simp add: py_count_def py_upper_def n_base_def upper_char_letters)+




subsection \<open>Nucleotide diversity\<close>

lemma pairs_zero_iff: "((real (n ^ 2) - real n) / 2 = 0) = (n \<le> 1)"
proof -
  have "(real (n ^ 2) - real n) = real n * (real n - 1)"
    by (simp add: power2_eq_square algebra_simps)
  then show ?thesis by auto
qed

lemma pairs_eq: "(real (n ^ 2) - real n) / 2 = real n * (real n - 1) / 2"
  by (simp add: power2_eq_square algebra_simps)

lemma pairs_zero_iff2: "(real n * (real n - 1) / 2 = 0) = (n \<le> 1)"
  by auto

lemma nuc_diversity_step:
  "nuc_diversity_list (v # vs) =
     (if depth v \<le> 1 then Inl ZeroDivisionError
      else (case nuc_diversity_list vs of Inl e \<Rightarrow> Inl e | Inr ds \<Rightarrow> Inr (Di v # ds)))"
proof -
  have reads: "n_base (CHR ''A'') v + n_base (CHR ''C'') v
      + n_base (CHR ''T'') v + n_base (CHR ''G'') v = depth v"
    by (simp add: depth_def)
  show ?thesis
    by (simp only: nuc_diversity_list.simps Let_def py_count_upper reads pairs_eq
        pairs_zero_iff2 Di_def)
qed


lemma nuc_diversity_list_degenerate:
  "v \<in> set vs \<Longrightarrow> depth v \<le> 1 \<Longrightarrow> nuc_diversity_list vs = Inl ZeroDivisionError"
proof (induction vs)
  case Nil
  then show ?case by simp
next
  case (Cons w ws)
  show ?case
  proof (cases "depth w \<le> 1")
    case True
    then show ?thesis by (simp only: nuc_diversity_step if_True)
  next
    case False
    then have "v \<in> set ws" using Cons.prems by auto
    then have rest: "nuc_diversity_list ws = Inl ZeroDivisionError" using Cons by simp
    show ?thesis by (simp only: nuc_diversity_step False rest if_False sum.case)
  qed
qed

lemma depth_ex: "depth ''AAAATTTT'' = 8" "depth ''A'' = 1"
  by (simp_all add: depth_def n_base_def)








text \<open>
  C6 (amended). As stated the claim fails: there is no DegeneratePosition error in the
  module; a position with one read ends the call in Python's ZeroDivisionError.
\<close>

theorem single_read_position_zero_division:
  "nucleotide_diversity \<lparr>dict_pileup = [(''2'', ''A'')], polymorphic_sites_dict = []\<rparr>
     = Inl ZeroDivisionError"
proof -
  have "nuc_diversity_list [''A''] = Inl ZeroDivisionError"
    by (rule nuc_diversity_list_degenerate [of "''A''"]) (simp_all add: depth_ex)
  then show ?thesis by (simp add: nucleotide_diversity_def)
qed

text \<open>
  C6, as the code has it: for every pileup collection with a position whose total count
  \<open>n\<close> over A, C, G, T is 0 or 1, \<^verbatim>\<open>nucleotide_diversity\<close> fails with ZeroDivisionError,
  the exception of the division itself.
\<close>

theorem nucleotide_diversity_degenerate:
  assumes "(k, v) \<in> set (dict_pileup p)" and "depth v \<le> 1"
  shows "nucleotide_diversity p = Inl ZeroDivisionError"
proof -
  have "v \<in> set (map snd (dict_pileup p))" using assms(1) by force
  then have "nuc_diversity_list (map snd (dict_pileup p)) = Inl ZeroDivisionError"
    using assms(2) by (rule nuc_diversity_list_degenerate)
  then show ?thesis by (simp add: nucleotide_diversity_def)
qed

theorem nucleotide_diversity_degenerate_witness:
  "(''7'', ''*'') \<in> set (dict_pileup \<lparr>dict_pileup = [(''1'', ''AAAATTTT''), (''7'', ''*'')], polymorphic_sites_dict = []\<rparr>)
   \<and> depth ''*'' \<le> 1
   \<and> nucleotide_diversity \<lparr>dict_pileup = [(''1'', ''AAAATTTT''), (''7'', ''*'')], polymorphic_sites_dict = []\<rparr>
      = Inl ZeroDivisionError"
proof -
  let ?p = "\<lparr>dict_pileup = [(''1'', ''AAAATTTT''), (''7'', ''*'')], polymorphic_sites_dict = []\<rparr>"
  have h1: "(''7'', ''*'') \<in> set (dict_pileup ?p)" by simp
  have h2: "depth ''*'' \<le> 1" by (simp add: depth_def n_base_def)
  show ?thesis using h1 h2 nucleotide_diversity_degenerate [OF h1 h2] by simp
qed

subsection \<open>Shannon entropy on a degenerate selection\<close>

lemma py_round_zero: "py_round 0 n = 0"
  by (simp add: py_round_def round_half_even_def)

lemma shannon_restricted:
  "shannon_entropy c t =
     (case entropy_loop (sum_list (map (\<lambda>(key, (s, perc, n)). n) (restricted c t)))
             (map (\<lambda>(key, (s, perc, n)). n) (restricted c t)) 0 of
        Inl e \<Rightarrow> Inl e
      | Inr entropy \<Rightarrow>
          if real (sum_list (map (\<lambda>(key, (s, perc, n)). n) (restricted c t))) \<le> 0 then Inl ValueError
          else if ln (real (sum_list (map (\<lambda>(key, (s, perc, n)). n) (restricted c t)))) = 0
            then Inl ZeroDivisionError
          else Inr (py_round (- (entropy / ln (real (sum_list (map (\<lambda>(key, (s, perc, n)). n) (restricted c t)))))) 3))"
  unfolding shannon_entropy_def restricted_def Let_def by (rule refl)

text \<open>
  C7 (amended). As stated the claim fails: with exactly one cluster of 180 reads selected,
  \<^verbatim>\<open>shannon_entropy\<close> raises nothing and returns 0.
\<close>

theorem one_cluster_entropy_zero: "shannon_entropy one_cluster 0 = Inr 0"
  by (simp add: shannon_entropy_def one_cluster_def py_round_zero)

text \<open>
  C7, as the code has it: when no record has \<open>percentage \<ge> threshold\<close>, \<^verbatim>\<open>shannon_entropy\<close>
  fails with ValueError (\<^verbatim>\<open>math.log(0)\<close>); when exactly one record has, it fails with
  ZeroDivisionError if that record has 0 or 1 reads and returns 0 otherwise.
\<close>

theorem shannon_entropy_degenerate:
  "(restricted c t = [] \<longrightarrow> shannon_entropy c t = Inl ValueError)
   \<and> (\<forall>k s pc n. restricted c t = [(k, (s, pc, n))] \<longrightarrow>
        shannon_entropy c t = (if n \<le> 1 then Inl ZeroDivisionError else Inr 0))"
proof (intro conjI allI impI)
  assume "restricted c t = []"
  then show "shannon_entropy c t = Inl ValueError"
    by (simp add: shannon_restricted)
next
  fix k s pc n
  assume r: "restricted c t = [(k, (s, pc, n))]"
  consider "n = 0" | "n = 1" | "2 \<le> n" by linarith
  then show "shannon_entropy c t = (if n \<le> 1 then Inl ZeroDivisionError else Inr 0)"
  proof cases
    case 1
    then show ?thesis by (simp add: shannon_restricted r)
  next
    case 2
    then show ?thesis by (simp add: shannon_restricted r)
  next
    case 3
    then have "ln (real n) \<noteq> 0" by simp
    with 3 show ?thesis by (simp add: shannon_restricted r py_round_zero)
  qed
qed

theorem shannon_entropy_degenerate_witness:
  "restricted two_clusters 95 = []
   \<and> shannon_entropy two_clusters 95 = Inl ValueError
   \<and> restricted two_clusters 50 = [(''ReadA'', (''AAATTTCCCGGG'' @ [newline], 90, 180))]
   \<and> shannon_entropy two_clusters 50 = Inr 0"
proof -
  have r1: "restricted two_clusters 95 = []"
    by (simp add: restricted_def two_clusters_def)
  have r2: "restricted two_clusters 50 = [(''ReadA'', (''AAATTTCCCGGG'' @ [newline], 90, 180))]"
    by (simp add: restricted_def two_clusters_def)
  from shannon_entropy_degenerate [of two_clusters 95] r1
  have e1: "shannon_entropy two_clusters 95 = Inl ValueError" by blast
  from shannon_entropy_degenerate [of two_clusters 50] r2
  have "shannon_entropy two_clusters 50 = (if (180::nat) \<le> 1 then Inl ZeroDivisionError else Inr 0)"
    by blast
  then have e2: "shannon_entropy two_clusters 50 = Inr 0" by simp
  show ?thesis using r1 r2 e1 e2 by blast
qed

subsection \<open>Simpson's index and its reciprocal\<close>

lemma simpson_loop_sum:
  "sum_list all_reads \<noteq> 0 \<Longrightarrow>
   simpson_loop all_reads rs D = Inr (D + (\<Sum>r\<leftarrow>rs. (real r / real (sum_list all_reads)) ^ 2))"
  by (induction rs arbitrary: D) (simp_all add: algebra_simps)

lemma simpson_loop_D:
  "0 < sum_list rs \<Longrightarrow> simpson_loop rs rs 0 = Inr (simpson_D rs)"
proof -
  assume "0 < sum_list rs"
  then have nz: "sum_list rs \<noteq> 0" by linarith
  show ?thesis
    unfolding simpson_D_def using simpson_loop_sum [OF nz, of rs 0] by (simp only: add_0)
qed







lemma simpson_D_two: "simpson_D [180, 20] = 82/100"
  by (simp add: simpson_D_def power2_eq_square)


lemmas round_eval = py_round_def round_half_even_def





subsection \<open>The two-cluster scenario\<close>

text \<open>
  C2 (amended). As stated the claim fails: for read counts 180 and 20 the sum of squared
  proportions is \<open>0.81 + 0.01\<close>, so \<^verbatim>\<open>simpsons_index\<close> returns 0.82, not 0.68.
\<close>

theorem simpsons_index_not_068:
  "\<not> (approx (simpsons_index two_clusters) (68 / 100) (1 / 100)
      \<and> approx (shannon_entropy two_clusters 0) (469 / 1000) (1 / 1000))"
proof -
  have nr: "number_reads two_clusters = [180, 20]" by (simp add: two_clusters_def)
  have s: "0 < sum_list [180, 20 :: nat]" by simp
  have l: "simpson_loop [180, 20] [180, 20] 0 = Inr (82 / 100)"
    by (simp only: simpson_loop_D [OF s] simpson_D_two)
  have "simpsons_index two_clusters = Inr (py_round (82 / 100) 2)"
    by (simp only: simpsons_index_def nr l sum.case)
  then have "simpsons_index two_clusters = Inr (82 / 100)"
    by (simp add: round_eval)
  then show ?thesis by (simp add: approx_def)
qed

text \<open>
  Bounds on the exponential from its Maclaurin expansion, and from them bounds on the
  three logarithms of the scenario.
\<close>

lemma exp_taylor_lower:
  fixes x :: real
  assumes "0 \<le> x"
  shows "(\<Sum>m<n. x ^ m / fact m) \<le> exp x"
proof -
  obtain t where "exp x = (\<Sum>m<n. x ^ m / fact m) + (exp t / fact n) * x ^ n"
    using Maclaurin_exp_le [of x n] by blast
  moreover have "0 \<le> (exp t / fact n) * x ^ n" using assms by simp
  ultimately show ?thesis by linarith
qed

lemma exp_taylor_upper:
  fixes x :: real
  assumes "0 \<le> x" and "x \<le> 1"
  shows "exp x \<le> (\<Sum>m<n. x ^ m / fact m) + 3 * x ^ n / fact n"
proof -
  obtain t where t: "\<bar>t\<bar> \<le> \<bar>x\<bar>"
    and e: "exp x = (\<Sum>m<n. x ^ m / fact m) + (exp t / fact n) * x ^ n"
    using Maclaurin_exp_le [of x n] by blast
  have "t \<le> 1" using t assms by linarith
  then have "exp t \<le> exp 1" by simp
  also have "\<dots> \<le> 3" by (rule exp_le)
  finally have "exp t \<le> 3" .
  then have "exp t * (x ^ n / fact n) \<le> 3 * (x ^ n / fact n)"
    using assms(1) by (intro mult_right_mono) simp_all
  then show ?thesis using e by (simp add: field_simps)
qed

lemma ln_upper: "0 < y \<Longrightarrow> y \<le> exp x \<Longrightarrow> ln y \<le> x" for x y :: real
  by (metis ln_exp ln_le_cancel_iff exp_gt_zero)

lemma ln_lower: "0 < y \<Longrightarrow> exp x \<le> y \<Longrightarrow> x \<le> ln y" for x y :: real
  using ln_ge_iff [of y x] by blast

lemma sum4: "(\<Sum>m<4. x ^ m / fact m) = 1 + x + x ^ 2 / 2 + x ^ 3 / 6" for x :: real
  by (simp add: lessThan_Suc eval_nat_numeral)

lemma sum5: "(\<Sum>m<5. x ^ m / fact m) = 1 + x + x ^ 2 / 2 + x ^ 3 / 6 + x ^ 4 / 24" for x :: real
  by (simp add: lessThan_Suc eval_nat_numeral)

lemma sum7: "(\<Sum>m<7. x ^ m / fact m)
    = 1 + x + x ^ 2 / 2 + x ^ 3 / 6 + x ^ 4 / 24 + x ^ 5 / 120 + x ^ 6 / 720" for x :: real
  by (simp add: lessThan_Suc eval_nat_numeral)

lemma facts: "fact 4 = (24::real)" "fact 5 = (120::real)" "fact 7 = (5040::real)"
  by (simp_all add: eval_nat_numeral)

lemma ln_10_9_upper: "ln (10 / 9 :: real) \<le> 1054 / 10000"
proof (rule ln_upper)
  have "(10 / 9 :: real) \<le> (\<Sum>m<4. (1054 / 10000) ^ m / fact m)"
    unfolding sum4 by (simp add: power_divide)
  also have "\<dots> \<le> exp (1054 / 10000)" by (rule exp_taylor_lower) simp
  finally show "(10 / 9 :: real) \<le> exp (1054 / 10000)" .
qed simp

lemma ln_10_9_lower: "105 / 1000 \<le> ln (10 / 9 :: real)"
proof (rule ln_lower)
  have "exp (105 / 1000 :: real) \<le> (\<Sum>m<4. (105 / 1000) ^ m / fact m) + 3 * (105 / 1000) ^ 4 / fact 4"
    by (rule exp_taylor_upper) simp_all
  also have "\<dots> \<le> 10 / 9" unfolding sum4 facts by (simp add: power_divide)
  finally show "exp (105 / 1000 :: real) \<le> 10 / 9" .
qed simp

lemma ln_2_upper: "ln (2 :: real) \<le> 7 / 10"
proof (rule ln_upper)
  have "(2 :: real) \<le> (\<Sum>m<4. (7 / 10) ^ m / fact m)"
    unfolding sum4 by (simp add: power_divide)
  also have "\<dots> \<le> exp (7 / 10)" by (rule exp_taylor_lower) simp
  finally show "(2 :: real) \<le> exp (7 / 10)" .
qed simp

lemma ln_2_lower: "69 / 100 \<le> ln (2 :: real)"
proof (rule ln_lower)
  have "exp (69 / 100 :: real) \<le> (\<Sum>m<7. (69 / 100) ^ m / fact m) + 3 * (69 / 100) ^ 7 / fact 7"
    by (rule exp_taylor_upper) simp_all
  also have "\<dots> \<le> 2" unfolding sum7 facts by (simp add: power_divide)
  finally show "exp (69 / 100 :: real) \<le> 2" .
qed simp

lemma ln_10_upper: "ln (10 :: real) \<le> 231 / 100"
proof (rule ln_upper)
  have s: "(12597 / 10000 :: real) \<le> (\<Sum>m<4. (231 / 1000) ^ m / fact m)"
    unfolding sum4 by (simp add: power_divide)
  have "(10 :: real) \<le> (12597 / 10000) ^ 10" by (simp add: power_divide)
  also have "\<dots> \<le> (\<Sum>m<4. (231 / 1000) ^ m / fact m) ^ 10"
    using s by (intro power_mono) simp_all
  also have "\<dots> \<le> exp (231 / 1000) ^ 10"
    by (intro power_mono exp_taylor_lower sum_nonneg) simp_all
  also have "\<dots> = exp (of_nat 10 * (231 / 1000))" by (simp only: exp_of_nat_mult)
  also have "\<dots> = exp (231 / 100)" by simp
  finally show "(10 :: real) \<le> exp (231 / 100)" .
qed simp

lemma ln_10_lower: "230 / 100 \<le> ln (10 :: real)"
proof (rule ln_lower)
  have b: "exp (23 / 100 :: real) \<le> (\<Sum>m<5. (23 / 100) ^ m / fact m) + 3 * (23 / 100) ^ 5 / fact 5"
    by (rule exp_taylor_upper) simp_all
  have "(\<Sum>m<5. (23 / 100) ^ m / fact m) + 3 * (23 / 100) ^ 5 / fact 5 \<le> (12587 / 10000 :: real)"
    unfolding sum5 facts by (simp add: power_divide)
  with b have b': "exp (23 / 100 :: real) \<le> 12587 / 10000" by linarith
  have "exp (230 / 100 :: real) = exp (of_nat 10 * (23 / 100))" by simp
  also have "\<dots> = exp (23 / 100) ^ 10" by (simp only: exp_of_nat_mult)
  also have "\<dots> \<le> (12587 / 10000) ^ 10"
    using b' by (intro power_mono) simp_all
  also have "\<dots> \<le> 10" by (simp add: power_divide)
  finally show "exp (230 / 100 :: real) \<le> 10" .
qed simp

lemma round_half_even_near:
  assumes "of_int n - 1 / 2 < y" and "y < of_int n + 1 / 2"
  shows "round_half_even y = n"
proof (cases "of_int n \<le> y")
  case True
  then have f: "\<lfloor>y\<rfloor> = n" using assms(2) by linarith
  have "y - of_int n < 1 / 2" using assms(2) by linarith
  then show ?thesis by (simp add: round_half_even_def Let_def f)
next
  case False
  then have f: "\<lfloor>y\<rfloor> = n - 1" using assms(1) by linarith
  have "1 / 2 < y - of_int (n - 1)" using assms(1) by simp
  moreover have "\<not> y - of_int (n - 1) < 1 / 2" using assms(1) by simp
  ultimately show ?thesis by (simp add: round_half_even_def Let_def f del: of_int_diff)
qed

lemma ln_200: "ln (200 :: real) = ln 2 + 2 * ln 10"
  using ln_mult [of "2 :: real" "10 ^ 2"] ln_realpow [of "10 :: real" 2] by simp

lemma ln_9_10: "ln (9 / 10 :: real) = - ln (10 / 9)"
proof -
  have "ln (9 / 10 :: real) = ln (inverse (10 / 9))" by simp
  also have "\<dots> = - ln (10 / 9)" by (rule ln_inverse) 
  finally show ?thesis .
qed

lemma ln_1_10: "ln (1 / 10 :: real) = - ln 10"
proof -
  have "ln (1 / 10 :: real) = ln (inverse 10)" by (simp add: inverse_eq_divide)
  also have "\<dots> = - ln 10" by (rule ln_inverse)
  finally show ?thesis .
qed

lemma neg_frac: "- ((p * (- A) + q * (- B)) / D) = (p * A + q * B) / D" for p q A B D :: real
proof -
  have "- (p * (- A) + q * (- B)) = p * A + q * B" by simp
  then show ?thesis by (metis minus_divide_left)
qed

lemma ratio_bounds:
  fixes N D k l u :: real
  assumes "0 < D" and "l * D < N * k" and "N * k < u * D"
  shows "l < N / D * k" and "N / D * k < u"
proof -
  have e: "N / D * k = N * k / D" by simp
  show "l < N / D * k" unfolding e using assms(1,2) by (simp only: pos_less_divide_eq)
  show "N / D * k < u" unfolding e using assms(1,3) by (simp only: pos_divide_less_eq)
qed

lemma two_clusters_entropy_value:
  "shannon_entropy two_clusters 0
     = Inr (py_round ((9 / 10 * ln (10 / 9) + 1 / 10 * ln 10) / (ln 2 + 2 * ln 10)) 3)"
proof -
  have pos: "0 < ln (2 :: real) + 2 * ln 10" using ln_2_lower ln_10_lower by linarith
  have loop: "entropy_loop 200 [180, 20] 0
      = Inr (9 / 10 * ln (9 / 10) + 1 / 10 * ln (1 / 10))"
    by simp
  have "shannon_entropy two_clusters 0
     = (case entropy_loop 200 [180, 20] 0 of
          Inl e \<Rightarrow> Inl e
        | Inr entropy \<Rightarrow>
            if real 200 \<le> 0 then Inl ValueError
            else if ln (real 200) = 0 then Inl ZeroDivisionError
            else Inr (py_round (- (entropy / ln (real 200))) 3))"
    by (simp add: shannon_entropy_def two_clusters_def)
  also have "\<dots> = Inr (py_round (- ((9 / 10 * ln (9 / 10) + 1 / 10 * ln (1 / 10)) / ln 200)) 3)"
    using pos by (simp only: loop sum.case) (simp add: ln_200)
  also have "- ((9 / 10 * ln (9 / 10) + 1 / 10 * ln (1 / 10)) / ln (200 :: real))
      = (9 / 10 * ln (10 / 9) + 1 / 10 * ln 10) / (ln 2 + 2 * ln 10)"
    by (simp only: ln_9_10 ln_1_10 ln_200 neg_frac)
  finally show ?thesis .
qed

lemma two_clusters_entropy_rounds:
  "round_half_even ((9 / 10 * ln (10 / 9) + 1 / 10 * ln 10) / (ln 2 + 2 * ln 10) * 10 ^ 3) = 61"
proof -
  define a b c :: real where "a = ln (10 / 9)" and "b = ln 10" and "c = ln 2"
  have bounds: "105 / 1000 \<le> a" "a \<le> 1054 / 10000" "230 / 100 \<le> b" "b \<le> 231 / 100"
    "69 / 100 \<le> c" "c \<le> 7 / 10"
    unfolding a_def b_def c_def
    by (rule ln_10_9_lower ln_10_9_upper ln_10_lower ln_10_upper ln_2_lower ln_2_upper)+
  have pos: "0 < c + 2 * b" using bounds by linarith
  have lo: "(of_int 61 - 1 / 2) * (c + 2 * b) < (9 / 10 * a + 1 / 10 * b) * 10 ^ 3"
    using bounds by simp
  have hi: "(9 / 10 * a + 1 / 10 * b) * 10 ^ 3 < (of_int 61 + 1 / 2) * (c + 2 * b)"
    using bounds by simp
  have "round_half_even ((9 / 10 * a + 1 / 10 * b) / (c + 2 * b) * 10 ^ 3) = 61"
    using ratio_bounds [OF pos lo hi] by (rule round_half_even_near)
  then show ?thesis by (simp only: a_def b_def c_def)
qed

text \<open>
  C2, as the code has it: for the collection of exactly two records, one with 180 reads
  at 90.0% and one with 20 reads at 10.0%, \<^verbatim>\<open>simpsons_index()\<close> returns 0.82 and
  \<^verbatim>\<open>shannon_entropy(0)\<close> returns 0.061, the entropy \<open>-(0.9 ln 0.9 + 0.1 ln 0.1)\<close> divided by
  \<open>ln 200\<close>, the logarithm of the total read count.
\<close>

theorem two_clusters_indices:
  "simpsons_index two_clusters = Inr (82 / 100)
   \<and> shannon_entropy two_clusters 0 = Inr (61 / 1000)"
proof -
  have nr: "number_reads two_clusters = [180, 20]" by (simp add: two_clusters_def)
  have s: "0 < sum_list [180, 20 :: nat]" by simp
  have l: "simpson_loop [180, 20] [180, 20] 0 = Inr (82 / 100)"
    by (simp only: simpson_loop_D [OF s] simpson_D_two)
  have "simpsons_index two_clusters = Inr (py_round (82 / 100) 2)"
    by (simp only: simpsons_index_def nr l sum.case)
  then have si: "simpsons_index two_clusters = Inr (82 / 100)"
    by (simp add: round_eval)
  have "py_round ((9 / 10 * ln (10 / 9) + 1 / 10 * ln 10) / (ln 2 + 2 * ln 10)) 3 = 61 / 1000"
    by (simp only: py_round_def two_clusters_entropy_rounds) simp
  then have se: "shannon_entropy two_clusters 0 = Inr (61 / 1000)"
    by (simp only: two_clusters_entropy_value)
  show ?thesis using si se by blast
qed

subsection \<open>Polymorphic sites\<close>


lemma sort4_perm:
  fixes a t c g :: nat
  shows "sort [a, t, c, g] = sort [a, c, g, t]"
  by auto

lemma sort4_sum:
  fixes a c g t :: nat
  shows "sum_list (sort [a, c, g, t]) = a + c + g + t"
  by auto

lemma source_counts:
  "sort [py_count (py_upper v) (CHR ''A''), py_count (py_upper v) (CHR ''T''),
         py_count (py_upper v) (CHR ''C''), py_count (py_upper v) (CHR ''G'')] ! 2
     = second_highest v"
  "sum_list (sort [py_count (py_upper v) (CHR ''A''), py_count (py_upper v) (CHR ''T''),
         py_count (py_upper v) (CHR ''C''), py_count (py_upper v) (CHR ''G'')]) = depth v"
proof -
  let ?A = "n_base (CHR ''A'') v" and ?T = "n_base (CHR ''T'') v"
  let ?C = "n_base (CHR ''C'') v" and ?G = "n_base (CHR ''G'') v"
  have p: "sort [?A, ?T, ?C, ?G] = sort [?A, ?C, ?G, ?T]" by (rule sort4_perm)
  show "sort [py_count (py_upper v) (CHR ''A''), py_count (py_upper v) (CHR ''T''),
         py_count (py_upper v) (CHR ''C''), py_count (py_upper v) (CHR ''G'')] ! 2
     = second_highest v"
    by (simp only: py_count_upper p second_highest_def)
  show "sum_list (sort [py_count (py_upper v) (CHR ''A''), py_count (py_upper v) (CHR ''T''),
         py_count (py_upper v) (CHR ''C''), py_count (py_upper v) (CHR ''G'')]) = depth v"
    by (simp only: py_count_upper p sort4_sum depth_def)
qed

lemma polymorphic_percentage_step:
  "polymorphic_percentage py_mul cutoff ((key, val) # rest) (n, psd) =
     (if py_mul (depth val) cutoff < real (second_highest val)
      then polymorphic_percentage py_mul cutoff rest (n + 1, AList.update key val psd)
      else polymorphic_percentage py_mul cutoff rest (n, psd))"
  by (simp only: polymorphic_percentage.simps Let_def source_counts)

lemma polymorphic_number_reads_step:
  "polymorphic_number_reads cutoff ((key, val) # rest) (n, psd) =
     (if cutoff < real (second_highest val)
      then polymorphic_number_reads cutoff rest (n + 1, AList.update key val psd)
      else polymorphic_number_reads cutoff rest (n, psd))"
  by (simp only: polymorphic_number_reads.simps Let_def source_counts)

lemma polymorphic_percentage_result:
  "polymorphic_percentage py_mul cutoff items (n, psd) =
     (n + length (filter (\<lambda>kv. py_mul (depth (snd kv)) cutoff < real (second_highest (snd kv))) items),
      store_all (filter (\<lambda>kv. py_mul (depth (snd kv)) cutoff < real (second_highest (snd kv))) items) psd)"
proof (induction items arbitrary: n psd)
  case Nil
  then show ?case by simp
next
  case (Cons kv items)
  obtain key val where kv: "kv = (key, val)" by (cases kv)
  show ?case
    unfolding kv polymorphic_percentage_step by (simp add: Cons.IH)
qed

lemma polymorphic_number_reads_result:
  "polymorphic_number_reads cutoff items (n, psd) =
     (n + length (filter (\<lambda>kv. cutoff < real (second_highest (snd kv))) items),
      store_all (filter (\<lambda>kv. cutoff < real (second_highest (snd kv))) items) psd)"
proof (induction items arbitrary: n psd)
  case Nil
  then show ?case by simp
next
  case (Cons kv items)
  obtain key val where kv: "kv = (key, val)" by (cases kv)
  show ?case
    unfolding kv polymorphic_number_reads_step by (simp add: Cons.IH)
qed





lemma update_same_value:
  "(\<And>v'. (k, v') \<in> set al \<Longrightarrow> v' = v) \<Longrightarrow> set (AList.update k v al) = insert (k, v) (set al)"
proof (induction al)
  case Nil
  then show ?case by simp
next
  case (Cons a al)
  obtain k' w where a: "a = (k', w)" by (cases a)
  show ?case
  proof (cases "k' = k")
    case True
    then have "w = v" using Cons.prems [of w] a by simp
    then show ?thesis using True a by auto
  next
    case False
    have "set (AList.update k v al) = insert (k, v) (set al)"
      using Cons.prems by (intro Cons.IH) auto
    then show ?thesis using False a by auto
  qed
qed

lemma same_key_same_value:
  "distinct (map fst xs) \<Longrightarrow> (k, v) \<in> set xs \<Longrightarrow> (k, v') \<in> set xs \<Longrightarrow> v = v'"
  by (metis eq_key_imp_eq_value)

lemma store_all_set:
  assumes "distinct (map fst items)"
  shows "set sub \<subseteq> set items \<Longrightarrow> set d \<subseteq> set items \<Longrightarrow>
         set (store_all sub d) = set d \<union> set sub"
proof (induction sub arbitrary: d)
  case Nil
  then show ?case by simp
next
  case (Cons kv sub)
  obtain k v where kv: "kv = (k, v)" by (cases kv)
  have kin: "(k, v) \<in> set items" using Cons.prems(1) kv by simp
  have same: "\<And>v'. (k, v') \<in> set d \<Longrightarrow> v' = v"
    using same_key_same_value [OF assms _ kin] Cons.prems(2) by blast
  have upd: "set (AList.update k v d) = insert (k, v) (set d)"
    using same by (rule update_same_value)
  have "set (store_all sub (AList.update k v d)) = set (AList.update k v d) \<union> set sub"
    using Cons.prems kin upd by (intro Cons.IH) auto
  then show ?case by (simp add: kv upd)
qed

lemma store_all_distinct:
  "distinct (map fst d) \<Longrightarrow> distinct (map fst (store_all sub d))"
  by (induction sub arbitrary: d) (auto simp: distinct_update)

lemma polymorphic_sites_state:
  "snd (polymorphic_sites py_mul value_type cutoff p)
     = p\<lparr>polymorphic_sites_dict :=
           store_all (qualifying py_mul value_type cutoff p) (polymorphic_sites_dict p)\<rparr>"
  by (simp add: polymorphic_sites_def polymorphic_percentage_result
      polymorphic_number_reads_result qualifying_def qualifies_def)

lemma qualifying_same_dict:
  "dict_pileup p' = dict_pileup p \<Longrightarrow> qualifying py_mul value_type cutoff p' = qualifying py_mul value_type cutoff p"
  by (simp add: qualifying_def)

lemma run_calls_state:
  assumes "distinct (map fst (dict_pileup p0))"
  shows "dict_pileup p = dict_pileup p0 \<Longrightarrow>
         set (polymorphic_sites_dict p) \<subseteq> set (dict_pileup p0) \<Longrightarrow>
         distinct (map fst (polymorphic_sites_dict p)) \<Longrightarrow>
         dict_pileup (run_calls py_mul p calls) = dict_pileup p0
         \<and> distinct (map fst (polymorphic_sites_dict (run_calls py_mul p calls)))
         \<and> set (polymorphic_sites_dict (run_calls py_mul p calls))
             = set (polymorphic_sites_dict p)
               \<union> (\<Union>call \<in> set calls. set (qualifying py_mul (fst call) (snd call) p0))"
proof (induction calls arbitrary: p)
  case Nil
  then show ?case by simp
next
  case (Cons call calls)
  obtain value_type cutoff where call: "call = (value_type, cutoff)" by (cases call)
  let ?q = "qualifying py_mul value_type cutoff p0"
  let ?p' = "snd (polymorphic_sites py_mul value_type cutoff p)"
  have q: "qualifying py_mul value_type cutoff p = ?q"
    using Cons.prems(1) by (rule qualifying_same_dict)
  have st: "?p' = p\<lparr>polymorphic_sites_dict := store_all ?q (polymorphic_sites_dict p)\<rparr>"
    by (simp only: polymorphic_sites_state q)
  have qsub: "set ?q \<subseteq> set (dict_pileup p0)" by (auto simp: qualifying_def)
  have stored: "set (store_all ?q (polymorphic_sites_dict p)) = set (polymorphic_sites_dict p) \<union> set ?q"
    using assms qsub Cons.prems(2) by (rule store_all_set)
  have d': "dict_pileup ?p' = dict_pileup p0" using Cons.prems(1) by (simp add: st)
  have s': "set (polymorphic_sites_dict ?p') \<subseteq> set (dict_pileup p0)"
    using stored qsub Cons.prems(2) by (simp add: st)
  have k': "distinct (map fst (polymorphic_sites_dict ?p'))"
    using Cons.prems(3) by (simp add: st store_all_distinct)
  have psd': "set (polymorphic_sites_dict ?p') = set (polymorphic_sites_dict p) \<union> set ?q"
    using stored by (simp add: st)
  from Cons.IH [OF d' s' k']
  show ?case
    unfolding call run_calls.simps psd' by auto
qed

lemma pileup_lines_distinct:
  "distinct (map fst d) \<Longrightarrow> pileup_lines m n lines d = Inr d' \<Longrightarrow> distinct (map fst d')"
proof (induction lines arbitrary: n d)
  case Nil
  then show ?case by simp
next
  case (Cons line lines)
  show ?case
    using Cons.prems
    by (auto simp: Let_def split: if_splits sum.splits intro: Cons.IH [OF distinct_update])
qed

lemma Pileup_init_state:
  assumes "Pileup_init pileup_file m = Inr p"
  shows "distinct (map fst (dict_pileup p)) \<and> polymorphic_sites_dict p = []"
proof -
  obtain d where d: "pileup_lines m 0 pileup_file [] = Inr d"
    and p: "p = \<lparr>dict_pileup = d, polymorphic_sites_dict = []\<rparr>"
    using assms by (auto simp: Pileup_init_def split: sum.splits)
  have "distinct (map fst d)" using pileup_lines_distinct [OF _ d] by simp
  then show ?thesis by (simp add: p)
qed

lemma run_calls_append: "run_calls py_mul p (xs @ ys) = run_calls py_mul (run_calls py_mul p xs) ys"
  by (induction xs arbitrary: p) auto

lemma minor_allele_loaded:
  "Pileup_init [aaaa_line, minor_allele_line] 0
     = Inr \<lparr>dict_pileup = [(''1'', ''AAAATTTT''), (''3'', ''AAAAAAAT'')],
            polymorphic_sites_dict = []\<rparr>"
  by (simp add: aaaa_line_def minor_allele_line_def Pileup_init_def string_eval
      sub_ref_base_def match_symbol_re_def Let_def)

lemma second_highest_ex:
  "second_highest ''AAAATTTT'' = 4" "second_highest ''AAAAAAAT'' = 1"
  by (simp_all add: second_highest_def n_base_def)

text \<open>
  C10. After any sequence of \<^verbatim>\<open>polymorphic_sites\<close> calls on a loaded pileup, the stored
  \<^verbatim>\<open>polymorphic_sites_dict\<close> holds exactly the positions that qualified in at least one of
  the calls, each once and with its value from \<^verbatim>\<open>dict_pileup\<close>; \<^verbatim>\<open>dict_pileup\<close> is unchanged,
  and further calls only add to the store, however the product of the percentage test
  is rounded. In the witness position 3 qualifies for cutoff 0, not for cutoff 2, and is
  still stored after both calls.
\<close>

theorem polymorphic_sites_dict_grows:
  assumes "Pileup_init pileup_file m = Inr p"
  shows "set (polymorphic_sites_dict (run_calls py_mul p calls))
           = (\<Union>call \<in> set calls. set (qualifying py_mul (fst call) (snd call) p))
       \<and> distinct (map fst (polymorphic_sites_dict (run_calls py_mul p calls)))
       \<and> dict_pileup (run_calls py_mul p calls) = dict_pileup p
       \<and> set (polymorphic_sites_dict (run_calls py_mul p calls))
           \<subseteq> set (polymorphic_sites_dict (run_calls py_mul p (calls @ later)))"
proof -
  have init: "distinct (map fst (dict_pileup p))" "polymorphic_sites_dict p = []"
    using Pileup_init_state [OF assms] by simp_all
  have a: "dict_pileup (run_calls py_mul p cs) = dict_pileup p
         \<and> distinct (map fst (polymorphic_sites_dict (run_calls py_mul p cs)))
         \<and> set (polymorphic_sites_dict (run_calls py_mul p cs))
             = (\<Union>call \<in> set cs. set (qualifying py_mul (fst call) (snd call) p))" for cs
    using run_calls_state [OF init(1), of p py_mul cs] init(2) by simp
  have "set (polymorphic_sites_dict (run_calls py_mul p calls))
           \<subseteq> set (polymorphic_sites_dict (run_calls py_mul p (calls @ later)))"
    using a [of calls] a [of "calls @ later"] by auto
  then show ?thesis using a [of calls] by simp
qed

theorem polymorphic_sites_dict_grows_witness:
  "Pileup_init [aaaa_line, minor_allele_line] 0
     = Inr \<lparr>dict_pileup = [(''1'', ''AAAATTTT''), (''3'', ''AAAAAAAT'')],
            polymorphic_sites_dict = []\<rparr>
   \<and> qualifying exact_product ''number_reads'' 2
        \<lparr>dict_pileup = [(''1'', ''AAAATTTT''), (''3'', ''AAAAAAAT'')], polymorphic_sites_dict = []\<rparr>
      = [(''1'', ''AAAATTTT'')]
   \<and> set (polymorphic_sites_dict
            (run_calls exact_product \<lparr>dict_pileup = [(''1'', ''AAAATTTT''), (''3'', ''AAAAAAAT'')],
                         polymorphic_sites_dict = []\<rparr>
               [(''number_reads'', 0), (''number_reads'', 2)]))
      = {(''1'', ''AAAATTTT''), (''3'', ''AAAAAAAT'')}"
proof -
  let ?p = "\<lparr>dict_pileup = [(''1'', ''AAAATTTT''), (''3'', ''AAAAAAAT'')],
             polymorphic_sites_dict = []\<rparr>"
  have q0: "qualifying exact_product ''number_reads'' 0 ?p = [(''1'', ''AAAATTTT''), (''3'', ''AAAAAAAT'')]"
    by (simp add: qualifying_def qualifies_def second_highest_ex)
  have q2: "qualifying exact_product ''number_reads'' 2 ?p = [(''1'', ''AAAATTTT'')]"
    by (simp add: qualifying_def qualifies_def second_highest_ex)
  have "set (polymorphic_sites_dict (run_calls exact_product ?p [(''number_reads'', 0), (''number_reads'', 2)]))
          = (\<Union>call \<in> set [(''number_reads'', 0), (''number_reads'', 2 :: real)].
               set (qualifying exact_product (fst call) (snd call) ?p))"
    using polymorphic_sites_dict_grows [OF minor_allele_loaded,
        of exact_product "[(''number_reads'', 0), (''number_reads'', 2)]" "[]"]
    by blast
  also have "\<dots> = {(''1'', ''AAAATTTT''), (''3'', ''AAAAAAAT'')}"
    by (simp add: q0 q2)
  finally show ?thesis using minor_allele_loaded q2 by blast
qed

end
